theory Spec2Isabelle
  imports Main
begin

section \<open>Shared vocabulary\<close>

text \<open>
  Python strings are modelled as \<open>string\<close>; the few characters of the source that lie
  outside ASCII are written as their UTF-8 bytes.
\<close>

definition nb_hyphen :: string where
  \<comment> \<open>U+2011, the non-breaking hyphen of "built-in" and "Real-time" in the source\<close>
  "nb_hyphen = [CHR 0xE2, CHR 0x80, CHR 0x91]"

definition rightwards_arrow :: string where
  \<comment> \<open>U+2192\<close>
  "rightwards_arrow = [CHR 0xE2, CHR 0x86, CHR 0x92]"

definition rightwards_double_arrow :: string where
  \<comment> \<open>U+21D2\<close>
  "rightwards_double_arrow = [CHR 0xE2, CHR 0x87, CHR 0x92]"

text \<open>
  The exceptions the modelled code can raise. \<open>RemoteError\<close> stands for whatever the
  client library raises from one of its calls.
\<close>

datatype error =
    ValueError string
  | TypeError
  | AttributeError
  | IndexError
  | RemoteError string

text \<open>
  A method that mutates its object and may raise is a function from the state to a
  result and the state it leaves behind; \<open>and_then\<close> sequences two of them, the
  second being skipped when the first raised.
\<close>

definition and_then ::
  "(error + 'a) \<times> 's \<Rightarrow> ('a \<Rightarrow> 's \<Rightarrow> (error + 'b) \<times> 's) \<Rightarrow> (error + 'b) \<times> 's" where
  "and_then r f = (case r of (Inl e, s) \<Rightarrow> (Inl e, s) | (Inr x, s) \<Rightarrow> f x s)"

section \<open>tools.py\<close>

subsection \<open>ToolSchema\<close>

text \<open>The values of the payload handed to the Assistants API (\<open>Dict[str, Any]\<close>).\<close>

datatype json =
    JStr string
  | JList "json list"
  | JDict "(string \<times> json) list"

record ToolSchema =
  name :: string
  description :: string
  properties :: "(string \<times> (string \<times> json) list) list"
  required :: "string list"

definition to_openai_dict :: "ToolSchema \<Rightarrow> json" where
  "to_openai_dict self =
     JDict [
       (''type'', JStr ''function''),
       (''function'', JDict [
          (''name'', JStr (name self)),
          (''description'', JStr (description self)),
          (''parameters'', JDict [
             (''type'', JStr ''object''),
             (''properties'', JDict (map (\<lambda>(k, d). (k, JDict d)) (properties self))),
             (''required'', JList (map JStr (required self)))])])]"

subsection \<open>ToolRegistry\<close>

text \<open>An entry of \<open>_tools\<close> is a \<open>ToolSchema\<close> or a \<open>Dict[str, str]\<close>.\<close>

datatype tool_entry =
    Schema ToolSchema
  | Builtin "(string \<times> string) list"

record ToolRegistry =
  tools :: "tool_entry list"

definition ToolRegistry_init :: ToolRegistry where
  "ToolRegistry_init = \<lparr>tools = []\<rparr>"

definition add_function :: "ToolSchema \<Rightarrow> ToolRegistry \<Rightarrow> (error + unit) \<times> ToolRegistry" where
  "add_function schema self = (Inr (), self\<lparr>tools := tools self @ [Schema schema]\<rparr>)"

definition add_builtin :: "string \<Rightarrow> ToolRegistry \<Rightarrow> (error + unit) \<times> ToolRegistry" where
  "add_builtin builtin_name self =
     (if builtin_name \<notin> {''code_interpreter'', ''file_search''}
      then (Inl (ValueError (''Unknown built'' @ nb_hyphen @ ''in tool: '' @ builtin_name)), self)
      else (Inr (), self\<lparr>tools := tools self @ [Builtin [(''type'', builtin_name)]]\<rparr>))"

definition webSearch_schema :: ToolSchema where
  "webSearch_schema =
     \<lparr>name = ''webSearch'',
      description = ''Real'' @ nb_hyphen @ ''time Bing search for rates, regulations, or news.'',
      properties = [
        (''query'', [(''type'', JStr ''string''), (''description'', JStr ''Search query.'')]),
        (''freshness_days'', [
           (''type'', JStr ''integer''),
           (''description'', JStr ''Restrict results to the last N days (optional).'')])],
      required = [''query'']\<rparr>"

definition getRateSheet_schema :: ToolSchema where
  "getRateSheet_schema =
     \<lparr>name = ''getRateSheet'',
      description = ''Fetch the latest pricing for a loan scenario.'',
      properties = [
        (''loanType'', [(''type'', JStr ''string'')]),
        (''fico'', [(''type'', JStr ''integer'')]),
        (''ltv'', [(''type'', JStr ''number'')])],
      required = [''loanType'', ''fico'', ''ltv'']\<rparr>"

definition createLoanDoc_schema :: ToolSchema where
  "createLoanDoc_schema =
     \<lparr>name = ''createLoanDoc'',
      description = ''Generate or fill a lending document and return the file_id.'',
      properties = [
        (''borrowerId'', [(''type'', JStr ''string'')]),
        (''templateId'', [(''type'', JStr ''string'')])],
      required = [''borrowerId'', ''templateId'']\<rparr>"

text \<open>
  The class method \<open>default\<close>: each registration runs only if the ones before it did
  not raise, and the populated registry is returned.
\<close>

definition default_registry :: "error + ToolRegistry" where
  "default_registry =
     (case and_then (add_builtin ''code_interpreter'' ToolRegistry_init) (\<lambda>_ reg.
           and_then (add_builtin ''file_search'' reg) (\<lambda>_ reg.
           and_then (add_function webSearch_schema reg) (\<lambda>_ reg.
           and_then (add_function getRateSheet_schema reg) (\<lambda>_ reg.
           add_function createLoanDoc_schema reg)))) of
        (Inl e, _) \<Rightarrow> Inl e
      | (Inr _, reg) \<Rightarrow> Inr reg)"

text \<open>
  \<open>openai_tools\<close>: the loop over \<open>_tools\<close> appends to \<open>payload\<close> the entry itself when
  it is a dict and its \<open>to_openai_dict()\<close> otherwise. The method is given the registry
  and hands it back, so that what it leaves behind can be stated.
\<close>

definition encode_entry :: "tool_entry \<Rightarrow> json" where
  "encode_entry t = (case t of Builtin d \<Rightarrow> JDict (map (\<lambda>(k, v). (k, JStr v)) d)
                             | Schema s \<Rightarrow> to_openai_dict s)"

fun openai_tools_loop :: "tool_entry list \<Rightarrow> json list \<Rightarrow> json list" where
  "openai_tools_loop [] payload = payload"
| "openai_tools_loop (t # ts) payload = openai_tools_loop ts (payload @ [encode_entry t])"

definition openai_tools :: "ToolRegistry \<Rightarrow> json list \<times> ToolRegistry" where
  "openai_tools self = (openai_tools_loop (tools self) [], self)"

text \<open>
  The registries a program can build: the constructor's, and whatever \<open>add_builtin\<close>
  and \<open>add_function\<close> leave behind, whether they raised or not.
\<close>

inductive reachable :: "ToolRegistry \<Rightarrow> bool" where
  reachable_init: "reachable ToolRegistry_init"
| reachable_builtin: "reachable reg \<Longrightarrow> reachable (snd (add_builtin b reg))"
| reachable_function: "reachable reg \<Longrightarrow> reachable (snd (add_function s reg))"

definition is_builtin_dict :: "(string \<times> string) list \<Rightarrow> bool" where
  "is_builtin_dict d =
     (case d of [(k, v)] \<Rightarrow> k = ''type'' \<and> v \<in> {''code_interpreter'', ''file_search''}
              | _ \<Rightarrow> False)"

definition builtins_valid :: "ToolRegistry \<Rightarrow> bool" where
  "builtins_valid reg =
     list_all (\<lambda>t. case t of Builtin d \<Rightarrow> is_builtin_dict d | Schema _ \<Rightarrow> True) (tools reg)"

section \<open>conversation_utils.py\<close>

subsection \<open>The objects the client library hands over\<close>

text \<open>
  The argument values of a tool call: strings, integers, booleans and \<open>None\<close>, and
  floats, which are carried as the text Python prints for them.
\<close>

datatype pyval =
    PStr string
  | PInt int
  | PFloat string
  | PBool bool
  | PNone

record function_call =
  fn_name :: string
  fn_arguments :: "(string \<times> pyval) list"

record tool_call =
  call_id :: string
  call_function :: function_call

text \<open>
  A run object: \<open>required_action\<close> is absent unless the run waits for tool outputs, and
  holds the calls of \<open>required_action.submit_tool_outputs.tool_calls\<close> otherwise.
\<close>

record run_obj =
  run_id :: string
  status :: string
  required_action :: "tool_call list option"

text \<open>
  An entry of the list \<open>handle_step\<close> returns: the dict with the keys
  \<open>tool_call_id\<close> and \<open>output\<close> (here \<open>output_str\<close>).
\<close>

record tool_output =
  tool_call_id :: string
  output_str :: string

record thread =
  thread_id :: string

datatype content_block =
    TextBlock string
  | ImageFileBlock string

record message =
  role :: string
  content :: "content_block list"

subsection \<open>Formatting values in f-strings\<close>

fun decimal :: "nat \<Rightarrow> string" where
  "decimal n =
     (if n < 10 then [char_of (48 + n)]
      else decimal (n div 10) @ [char_of (48 + n mod 10)])"

declare decimal.simps [simp del]

text \<open>
  Converting an int to text raises \<open>ValueError\<close> when the int has more digits than
  \<open>sys.int_info.default_max_str_digits\<close>; the sign is not counted.
\<close>

definition default_max_str_digits :: nat where
  "default_max_str_digits = 4300"

definition int_max_str_digits_error :: error where
  "int_max_str_digits_error =
     ValueError (''Exceeds the limit (4300 digits) for integer string conversion; ''
       @ ''use sys.set_int_max_str_digits() to increase the limit'')"

definition py_str :: "pyval \<Rightarrow> error + string" where
  "py_str v =
     (case v of
        PStr s \<Rightarrow> Inr s
      | PInt i \<Rightarrow>
          (if length (decimal (nat \<bar>i\<bar>)) > default_max_str_digits
           then Inl int_max_str_digits_error
           else Inr (if i < 0 then ''-'' @ decimal (nat (- i)) else decimal (nat i)))
      | PFloat r \<Rightarrow> Inr r
      | PBool b \<Rightarrow> Inr (if b then ''True'' else ''False'')
      | PNone \<Rightarrow> Inr ''None'')"

text \<open>
  An f-string is a sequence of literal pieces and of values to format. The values are
  formatted from left to right, and the first one that raises ends the evaluation.
\<close>

datatype fpart =
    Lit string
  | Val pyval

fun f_string :: "fpart list \<Rightarrow> error + string" where
  "f_string [] = Inr []"
| "f_string (Lit s # parts) =
     (case f_string parts of Inl e \<Rightarrow> Inl e | Inr rest \<Rightarrow> Inr (s @ rest))"
| "f_string (Val v # parts) =
     (case py_str v of
        Inl e \<Rightarrow> Inl e
      | Inr s \<Rightarrow> (case f_string parts of Inl e \<Rightarrow> Inl e | Inr rest \<Rightarrow> Inr (s @ rest)))"

subsection \<open>ToolDispatcher\<close>

text \<open>The mock tools, as functions of their bound parameters.\<close>

definition web_search :: "pyval \<Rightarrow> pyval \<Rightarrow> error + string" where
  "web_search query freshness_days =
     f_string [Lit (''<mock WebSearch results for '' @ [CHR 0x27]), Val query,
               Lit ([CHR 0x27] @ '', freshness=''), Val freshness_days, Lit ''>'']"

definition get_rate_sheet :: "pyval \<Rightarrow> pyval \<Rightarrow> pyval \<Rightarrow> error + string" where
  "get_rate_sheet loanType fico ltv =
     f_string [Lit (''RateSheet mock '' @ rightwards_arrow @ '' ''), Val loanType,
               Lit ''|FICO '', Val fico, Lit ''|LTV '', Val ltv,
               Lit ('' '' @ rightwards_double_arrow @ '' 6.25%/0.2 pts'')]"

definition create_loan_doc :: "pyval \<Rightarrow> pyval \<Rightarrow> error + string" where
  "create_loan_doc borrowerId templateId =
     f_string [Lit ''file_mock_'', Val borrowerId, Lit ''_'', Val templateId]"

text \<open>
  A call \<open>f(**args)\<close> raises \<open>TypeError\<close> when \<open>args\<close> has a key that is no parameter of
  \<open>f\<close>, or lacks a parameter that has no default.
\<close>

definition unexpected_keyword :: "string list \<Rightarrow> (string \<times> pyval) list \<Rightarrow> bool" where
  "unexpected_keyword params args = list_ex (\<lambda>k. k \<notin> set params) (map fst args)"

definition call_web_search :: "(string \<times> pyval) list \<Rightarrow> error + string" where
  "call_web_search args =
     (if unexpected_keyword [''query'', ''freshness_days''] args then Inl TypeError
      else case map_of args ''query'' of
             None \<Rightarrow> Inl TypeError
           | Some query \<Rightarrow>
               web_search query
                 (case map_of args ''freshness_days'' of None \<Rightarrow> PNone | Some d \<Rightarrow> d))"

definition call_get_rate_sheet :: "(string \<times> pyval) list \<Rightarrow> error + string" where
  "call_get_rate_sheet args =
     (if unexpected_keyword [''loanType'', ''fico'', ''ltv''] args then Inl TypeError
      else case (map_of args ''loanType'', map_of args ''fico'', map_of args ''ltv'') of
             (Some loanType, Some fico, Some ltv) \<Rightarrow> get_rate_sheet loanType fico ltv
           | _ \<Rightarrow> Inl TypeError)"

definition call_create_loan_doc :: "(string \<times> pyval) list \<Rightarrow> error + string" where
  "call_create_loan_doc args =
     (if unexpected_keyword [''borrowerId'', ''templateId''] args then Inl TypeError
      else case (map_of args ''borrowerId'', map_of args ''templateId'') of
             (Some borrowerId, Some templateId) \<Rightarrow> create_loan_doc borrowerId templateId
           | _ \<Rightarrow> Inl TypeError)"

text \<open>One pass of the loop body of \<open>handle_step\<close>: the entry appended for \<open>call\<close>.\<close>

definition tool_result :: "tool_call \<Rightarrow> error + string \<Rightarrow> error + tool_output" where
  "tool_result call r =
     (case r of Inl e \<Rightarrow> Inl e
              | Inr out \<Rightarrow> Inr \<lparr>tool_call_id = call_id call, output_str = out\<rparr>)"

definition handle_call :: "tool_call \<Rightarrow> error + tool_output" where
  "handle_call call =
     (let name = fn_name (call_function call);
          args = fn_arguments (call_function call)
      in if name = ''webSearch'' then tool_result call (call_web_search args)
         else if name = ''getRateSheet'' then tool_result call (call_get_rate_sheet args)
         else if name = ''createLoanDoc'' then tool_result call (call_create_loan_doc args)
         else Inr \<lparr>tool_call_id = call_id call, output_str = ''Unknown tool '' @ name\<rparr>)"

fun handle_step_loop :: "tool_call list \<Rightarrow> tool_output list \<Rightarrow> error + tool_output list" where
  "handle_step_loop [] outputs = Inr outputs"
| "handle_step_loop (call # calls) outputs =
     (case handle_call call of
        Inl e \<Rightarrow> Inl e
      | Inr out \<Rightarrow> handle_step_loop calls (outputs @ [out]))"

definition handle_step :: "run_obj \<Rightarrow> error + tool_output list" where
  "handle_step run_obj =
     (case required_action run_obj of
        None \<Rightarrow> Inl AttributeError
      | Some tool_calls \<Rightarrow> handle_step_loop tool_calls [])"

subsection \<open>The client\<close>

text \<open>
  The methods of the client library that \<open>AssistantRunner\<close> calls. The remote service
  is a state \<open>'w\<close>; each method returns its result, or the exception it raises, and the
  state of the service afterwards.
\<close>

record 'w client =
  threads_create :: "'w \<Rightarrow> (error + thread) \<times> 'w"
  threads_retrieve :: "string \<Rightarrow> 'w \<Rightarrow> (error + thread) \<times> 'w"
  messages_create :: "string \<Rightarrow> string \<Rightarrow> string \<Rightarrow> 'w \<Rightarrow> (error + unit) \<times> 'w"
  runs_create :: "string \<Rightarrow> string \<Rightarrow> bool \<Rightarrow> 'w \<Rightarrow> (error + run_obj) \<times> 'w"
  runs_submit_tool_outputs ::
    "string \<Rightarrow> string \<Rightarrow> tool_output list \<Rightarrow> 'w \<Rightarrow> (error + run_obj) \<times> 'w"
  runs_retrieve :: "string \<Rightarrow> string \<Rightarrow> 'w \<Rightarrow> (error + run_obj) \<times> 'w"
  messages_list :: "string \<Rightarrow> string \<Rightarrow> 'w \<Rightarrow> (error + message list) \<times> 'w"

text \<open>
  What \<open>run\<close> does to the outside world, in the order it does it: every call of a
  client method with its arguments, and every \<open>time.sleep(0.75)\<close>.
\<close>

datatype event =
    ThreadsCreate
  | ThreadsRetrieve string
  | MessagesCreate string string string
  | RunsCreate string string bool
  | SubmitToolOutputs string string "tool_output list"
  | Sleep
  | RunsRetrieve string string
  | MessagesList string string

text \<open>
  \<open>perform ev f\<close> runs the effect \<open>f\<close> on the service and appends \<open>ev\<close> to the
  record of what was done.
\<close>

definition perform ::
  "event \<Rightarrow> ('w \<Rightarrow> (error + 'a) \<times> 'w) \<Rightarrow> 'w \<times> event list \<Rightarrow> (error + 'a) \<times> ('w \<times> event list)" where
  "perform ev f s = (case f (fst s) of (r, w') \<Rightarrow> (r, (w', snd s @ [ev])))"

subsection \<open>AssistantRunner\<close>

record 'w AssistantRunner =
  assistant_id :: string
  client :: "'w client"

text \<open>The body of the \<open>while\<close> loop of \<open>run\<close>: the value assigned to \<open>run\<close>.\<close>

definition poll_step ::
  "'w AssistantRunner \<Rightarrow> thread \<Rightarrow> run_obj \<Rightarrow> 'w \<times> event list
     \<Rightarrow> (error + run_obj) \<times> ('w \<times> event list)" where
  "poll_step self thread run s =
     (if status run = ''requires_action''
      then (case handle_step run of
              Inl e \<Rightarrow> (Inl e, s)
            | Inr outputs \<Rightarrow>
                perform (SubmitToolOutputs (run_id run) (thread_id thread) outputs)
                  (runs_submit_tool_outputs (client self) (run_id run) (thread_id thread) outputs) s)
      else and_then (perform Sleep (\<lambda>w. (Inr (), w)) s) (\<lambda>_.
             perform (RunsRetrieve (run_id run) (thread_id thread))
               (runs_retrieve (client self) (run_id run) (thread_id thread))))"

text \<open>
  The \<open>while\<close> loop. It need not end: the result is \<open>None\<close> when it runs forever,
  and otherwise the run object it ended with, or the exception that left it.
\<close>

partial_function (option) poll_loop ::
  "'w AssistantRunner \<Rightarrow> thread \<Rightarrow> run_obj \<Rightarrow> 'w \<times> event list
     \<Rightarrow> ((error + run_obj) \<times> ('w \<times> event list)) option" where
  "poll_loop self thread run s =
     (if status run \<in> {''queued'', ''in_progress'', ''requires_action''}
      then (case poll_step self thread run s of
              (Inl e, s') \<Rightarrow> Some (Inl e, s')
            | (Inr run', s') \<Rightarrow> poll_loop self thread run' s')
      else Some (Inr run, s))"

declare poll_loop.simps [code]

text \<open>\<open>msgs.data[-1].content[0].text.value\<close>\<close>

definition last_text :: "message list \<Rightarrow> error + string" where
  "last_text data =
     (if data = [] then Inl IndexError
      else case content (last data) of
             [] \<Rightarrow> Inl IndexError
           | TextBlock v # _ \<Rightarrow> Inr v
           | ImageFileBlock _ # _ \<Rightarrow> Inl AttributeError)"

text \<open>Step 5 of \<open>run\<close>: list the messages and return the last one's text.\<close>

definition fetch_final_message ::
  "'w AssistantRunner \<Rightarrow> thread \<Rightarrow> 'w \<times> event list \<Rightarrow> (error + string) \<times> ('w \<times> event list)" where
  "fetch_final_message self thread s =
     and_then (perform (MessagesList (thread_id thread) ''asc'')
                 (messages_list (client self) (thread_id thread) ''asc'') s)
       (\<lambda>msgs s'. (last_text msgs, s'))"

text \<open>
  \<open>run\<close> from the moment the variable \<open>run\<close> holds a run object: the loop, then step 5.
\<close>

definition run_from ::
  "'w AssistantRunner \<Rightarrow> thread \<Rightarrow> run_obj \<Rightarrow> 'w \<times> event list
     \<Rightarrow> ((error + string) \<times> ('w \<times> event list)) option" where
  "run_from self thread run s =
     (case poll_loop self thread run s of
        None \<Rightarrow> None
      | Some (Inl e, s') \<Rightarrow> Some (Inl e, s')
      | Some (Inr _, s') \<Rightarrow> Some (fetch_final_message self thread s'))"

text \<open>Steps 1 to 3 of \<open>run\<close>: the thread, the user's message, the run.\<close>

definition start_run ::
  "'w AssistantRunner \<Rightarrow> string \<Rightarrow> string option \<Rightarrow> 'w \<times> event list
     \<Rightarrow> (error + thread \<times> run_obj) \<times> ('w \<times> event list)" where
  "start_run self user_message thread_id_opt s =
     and_then
       (case thread_id_opt of
          None \<Rightarrow> perform ThreadsCreate (threads_create (client self)) s
        | Some tid \<Rightarrow> perform (ThreadsRetrieve tid) (threads_retrieve (client self) tid) s)
       (\<lambda>thread s1.
          and_then
            (perform (MessagesCreate (thread_id thread) ''user'' user_message)
               (messages_create (client self) (thread_id thread) ''user'' user_message) s1)
            (\<lambda>_ s2.
               and_then
                 (perform (RunsCreate (assistant_id self) (thread_id thread) False)
                    (runs_create (client self) (assistant_id self) (thread_id thread) False) s2)
                 (\<lambda>run s3. (Inr (thread, run), s3))))"

definition run ::
  "'w AssistantRunner \<Rightarrow> string \<Rightarrow> string option \<Rightarrow> 'w \<times> event list
     \<Rightarrow> ((error + string) \<times> ('w \<times> event list)) option" where
  "run self user_message thread_id_opt s =
     (case start_run self user_message thread_id_opt s of
        (Inl e, s') \<Rightarrow> Some (Inl e, s')
      | (Inr (thread, run), s') \<Rightarrow> run_from self thread run s')"

section \<open>Vocabulary of the properties\<close>

text \<open>
  When a call \<open>f(**args)\<close> binds: every key of \<open>args\<close> is a parameter of \<open>f\<close>, and
  every parameter without a default is a key of \<open>args\<close>.
\<close>

definition arguments_bind :: "string list \<Rightarrow> string list \<Rightarrow> (string \<times> pyval) list \<Rightarrow> bool" where
  "arguments_bind required_params optional_params args =
     (list_all (\<lambda>k. k \<in> set (required_params @ optional_params)) (map fst args)
      \<and> list_all (\<lambda>p. p \<in> set (map fst args)) required_params)"

text \<open>A value that can be formatted: any but an int of more digits than the limit.\<close>

definition printable :: "pyval \<Rightarrow> bool" where
  "printable v =
     (case v of PInt i \<Rightarrow> length (decimal (nat \<bar>i\<bar>)) \<le> default_max_str_digits | _ \<Rightarrow> True)"

definition passed_printable :: "string list \<Rightarrow> (string \<times> pyval) list \<Rightarrow> bool" where
  "passed_printable params args =
     list_all (\<lambda>p. case map_of args p of None \<Rightarrow> True | Some v \<Rightarrow> printable v) params"

text \<open>
  A request is served when it names none of the three tools, or carries arguments that
  bind to the parameters of the tool it names and that can all be formatted.
\<close>

definition call_returns :: "tool_call \<Rightarrow> bool" where
  "call_returns call =
     (let name = fn_name (call_function call);
          args = fn_arguments (call_function call)
      in if name = ''webSearch''
         then arguments_bind [''query''] [''freshness_days''] args
              \<and> passed_printable [''query'', ''freshness_days''] args
         else if name = ''getRateSheet''
         then arguments_bind [''loanType'', ''fico'', ''ltv''] [] args
              \<and> passed_printable [''loanType'', ''fico'', ''ltv''] args
         else if name = ''createLoanDoc''
         then arguments_bind [''borrowerId'', ''templateId''] [] args
              \<and> passed_printable [''borrowerId'', ''templateId''] args
         else True)"

definition parts_printable :: "fpart list \<Rightarrow> bool" where
  "parts_printable parts =
     list_all (\<lambda>p. case p of Lit _ \<Rightarrow> True | Val v \<Rightarrow> printable v) parts"

definition is_submission :: "event \<Rightarrow> bool" where
  "is_submission ev = (case ev of SubmitToolOutputs _ _ _ \<Rightarrow> True | _ \<Rightarrow> False)"

subsection \<open>A simulated service\<close>

text \<open>
  A scripted stand-in for the remote service, on which \<open>run\<close> can be executed: every
  call that returns a run object returns the next one of \<open>responses\<close>, and listing the
  messages returns \<open>listing\<close>.
\<close>

record sim_service =
  responses :: "run_obj list"
  listing :: "message list"

definition sim_next_run :: "sim_service \<Rightarrow> (error + run_obj) \<times> sim_service" where
  "sim_next_run w =
     (case responses w of
        [] \<Rightarrow> (Inl (RemoteError ''no response left''), w)
      | r # rs \<Rightarrow> (Inr r, w\<lparr>responses := rs\<rparr>))"

definition sim_client :: "sim_service client" where
  "sim_client =
     \<lparr>threads_create = (\<lambda>w. (Inr \<lparr>thread_id = ''thread_1''\<rparr>, w)),
      threads_retrieve = (\<lambda>tid w. (Inr \<lparr>thread_id = tid\<rparr>, w)),
      messages_create = (\<lambda>tid r c w. (Inr (), w)),
      runs_create = (\<lambda>aid tid stream. sim_next_run),
      runs_submit_tool_outputs = (\<lambda>rid tid outs. sim_next_run),
      runs_retrieve = (\<lambda>rid tid. sim_next_run),
      messages_list = (\<lambda>tid ord w. (Inr (listing w), w))\<rparr>"

definition sim_runner :: "sim_service AssistantRunner" where
  "sim_runner = \<lparr>assistant_id = ''asst_1'', client = sim_client\<rparr>"

definition sim_thread :: thread where
  "sim_thread = \<lparr>thread_id = ''thread_1''\<rparr>"

definition sim_run :: "string \<Rightarrow> run_obj" where
  "sim_run st = \<lparr>run_id = ''run_1'', status = st, required_action = None\<rparr>"

definition sim_action :: "tool_call list \<Rightarrow> run_obj" where
  "sim_action calls =
     \<lparr>run_id = ''run_1'', status = ''requires_action'', required_action = Some calls\<rparr>"

definition text_message :: "string \<Rightarrow> string \<Rightarrow> message" where
  "text_message r t = \<lparr>role = r, content = [TextBlock t]\<rparr>"

definition sim_call :: "string \<Rightarrow> string \<Rightarrow> (string \<times> pyval) list \<Rightarrow> tool_call" where
  "sim_call cid tool args =
     \<lparr>call_id = cid, call_function = \<lparr>fn_name = tool, fn_arguments = args\<rparr>\<rparr>"

definition rate_call :: tool_call where
  "rate_call =
     sim_call ''call_1'' ''getRateSheet''
       [(''loanType'', PStr ''30yr_fixed''), (''fico'', PInt 740), (''ltv'', PFloat ''0.8'')]"

text \<open>What \<open>handle_step\<close> returns for \<open>rate_call\<close>.\<close>

definition rate_call_output :: tool_output where
  "rate_call_output =
     \<lparr>tool_call_id = ''call_1'',
      output_str = ''RateSheet mock '' @ rightwards_arrow @ '' 30yr_fixed|FICO 740|LTV 0.8 ''
        @ rightwards_double_arrow @ '' 6.25%/0.2 pts''\<rparr>"

text \<open>A \<open>createLoanDoc\<close> request whose borrower id is the int \<open>10 ** 4300\<close>.\<close>

definition big_doc_call :: tool_call where
  "big_doc_call =
     sim_call ''call_2'' ''createLoanDoc''
       [(''borrowerId'', PInt (10 ^ default_max_str_digits)), (''templateId'', PStr ''t1'')]"

section \<open>Properties of the registry\<close>

lemma openai_tools_loop_map: "openai_tools_loop ts payload = payload @ map encode_entry ts"
  by (induction ts arbitrary: payload) simp_all

lemma add_builtin_valid: "builtins_valid reg \<Longrightarrow> builtins_valid (snd (add_builtin b reg))"
  by (auto simp: add_builtin_def builtins_valid_def is_builtin_dict_def)

lemma add_function_valid: "builtins_valid reg \<Longrightarrow> builtins_valid (snd (add_function s reg))"
  by (simp add: add_function_def builtins_valid_def)

lemma reachable_valid: "reachable reg \<Longrightarrow> builtins_valid reg"
proof (induction rule: reachable.induct)
  case reachable_init
  show ?case by (simp add: builtins_valid_def ToolRegistry_init_def)
next
  case (reachable_builtin reg b)
  then show ?case by (simp add: add_builtin_valid)
next
  case (reachable_function reg s)
  then show ?case by (simp add: add_function_valid)
qed

lemma default_registry_tools:
  "default_registry =
     Inr \<lparr>tools = [Builtin [(''type'', ''code_interpreter'')], Builtin [(''type'', ''file_search'')],
                   Schema webSearch_schema, Schema getRateSheet_schema,
                   Schema createLoanDoc_schema]\<rparr>"
  by (simp add: default_registry_def and_then_def add_builtin_def add_function_def
      ToolRegistry_init_def)

lemma default_registry_reachable:
  "reachable \<lparr>tools = [Builtin [(''type'', ''code_interpreter'')], Builtin [(''type'', ''file_search'')],
                       Schema webSearch_schema, Schema getRateSheet_schema,
                       Schema createLoanDoc_schema]\<rparr>"
proof -
  let ?r1 = "snd (add_builtin ''code_interpreter'' ToolRegistry_init)"
  let ?r2 = "snd (add_builtin ''file_search'' ?r1)"
  let ?r3 = "snd (add_function webSearch_schema ?r2)"
  let ?r4 = "snd (add_function getRateSheet_schema ?r3)"
  let ?r5 = "snd (add_function createLoanDoc_schema ?r4)"
  have "reachable ?r5"
    by (intro reachable.intros)
  moreover have "?r5 =
      \<lparr>tools = [Builtin [(''type'', ''code_interpreter'')], Builtin [(''type'', ''file_search'')],
                Schema webSearch_schema, Schema getRateSheet_schema,
                Schema createLoanDoc_schema]\<rparr>"
    by (simp add: add_builtin_def add_function_def ToolRegistry_init_def)
  ultimately show ?thesis by simp
qed

text \<open>
  C4, as the code has it. \<open>add_function\<close> has no check of the name: registering a schema
  whose name equals that of a custom tool already registered succeeds, and the schema
  is appended after the entries that were there, so the registry holds both.
\<close>

theorem add_function_duplicate_appends:
  assumes "Schema earlier \<in> set (tools reg)" and "name earlier = name schema"
  shows "fst (add_function schema reg) = Inr ()
       \<and> tools (snd (add_function schema reg)) = tools reg @ [Schema schema]
       \<and> length (tools (snd (add_function schema reg))) = Suc (length (tools reg))
       \<and> Schema earlier \<in> set (tools (snd (add_function schema reg)))"
  using assms by (simp add: add_function_def)

theorem add_function_duplicate_appends_witness:
  "Schema webSearch_schema \<in> set (tools \<lparr>tools = [Schema webSearch_schema]\<rparr>)
   \<and> fst (add_function webSearch_schema \<lparr>tools = [Schema webSearch_schema]\<rparr>) = Inr ()
   \<and> tools (snd (add_function webSearch_schema \<lparr>tools = [Schema webSearch_schema]\<rparr>))
       = [Schema webSearch_schema, Schema webSearch_schema]"
  using add_function_duplicate_appends
    [of webSearch_schema "\<lparr>tools = [Schema webSearch_schema]\<rparr>" webSearch_schema]
  by simp

text \<open>
  C4, as the claim states it, fails: registering \<open>webSearch\<close> on a registry that
  already holds it raises nothing and leaves two entries.
\<close>

theorem add_function_duplicate_counterexample:
  "add_function webSearch_schema \<lparr>tools = [Schema webSearch_schema]\<rparr>
     = (Inr (), \<lparr>tools = [Schema webSearch_schema, Schema webSearch_schema]\<rparr>)"
  by (simp add: add_function_def)

text \<open>
  C7. A tag outside \<open>{code_interpreter, file_search}\<close> makes \<open>add_builtin\<close> raise
  (a \<open>ValueError\<close>) and leaves the registry as it was; a tag of the set is registered by
  appending the one-field dict \<open>{"type": tag}\<close>. The method is a function of the tag and
  the registry alone: it has no client to call.
\<close>

theorem add_builtin_closed_set:
  "(builtin_name \<notin> {''code_interpreter'', ''file_search''} \<longrightarrow>
       (\<exists>msg. fst (add_builtin builtin_name reg) = Inl (ValueError msg))
       \<and> snd (add_builtin builtin_name reg) = reg)
   \<and> (builtin_name \<in> {''code_interpreter'', ''file_search''} \<longrightarrow>
       fst (add_builtin builtin_name reg) = Inr ()
       \<and> tools (snd (add_builtin builtin_name reg)) = tools reg @ [Builtin [(''type'', builtin_name)]])"
  by (simp add: add_builtin_def)

theorem add_builtin_closed_set_witness:
  "''retrieval'' \<notin> {''code_interpreter'', ''file_search''}
   \<and> snd (add_builtin ''retrieval'' \<lparr>tools = [Builtin [(''type'', ''file_search'')]]\<rparr>)
       = \<lparr>tools = [Builtin [(''type'', ''file_search'')]]\<rparr>
   \<and> ''code_interpreter'' \<in> {''code_interpreter'', ''file_search''}
   \<and> tools (snd (add_builtin ''code_interpreter'' \<lparr>tools = [Builtin [(''type'', ''file_search'')]]\<rparr>))
       = [Builtin [(''type'', ''file_search'')], Builtin [(''type'', ''code_interpreter'')]]"
  using add_builtin_closed_set [of "''retrieval''" "\<lparr>tools = [Builtin [(''type'', ''file_search'')]]\<rparr>"]
    add_builtin_closed_set [of "''code_interpreter''" "\<lparr>tools = [Builtin [(''type'', ''file_search'')]]\<rparr>"]
  by simp

text \<open>
  C9. \<open>openai_tools\<close> leaves the registry as it found it, a second call returns the
  list the first one returned, and the list holds the encoding of each entry at the
  position of the entry: a tool registered later is encoded after the tools registered
  before it.
\<close>

theorem openai_tools_observes:
  "snd (openai_tools reg) = reg
   \<and> fst (openai_tools (snd (openai_tools reg))) = fst (openai_tools reg)
   \<and> fst (openai_tools reg) = map encode_entry (tools reg)
   \<and> fst (openai_tools (snd (add_function schema reg)))
       = fst (openai_tools reg) @ [to_openai_dict schema]
   \<and> (builtin_name \<in> {''code_interpreter'', ''file_search''} \<longrightarrow>
       fst (openai_tools (snd (add_builtin builtin_name reg)))
         = fst (openai_tools reg) @ [JDict [(''type'', JStr builtin_name)]])"
  by (simp add: openai_tools_def openai_tools_loop_map add_function_def add_builtin_def
      encode_entry_def)

theorem openai_tools_observes_witness:
  "''file_search'' \<in> {''code_interpreter'', ''file_search''}
   \<and> fst (openai_tools (snd (add_builtin ''file_search'' \<lparr>tools = [Schema createLoanDoc_schema]\<rparr>)))
       = [to_openai_dict createLoanDoc_schema, JDict [(''type'', JStr ''file_search'')]]
   \<and> snd (openai_tools \<lparr>tools = [Schema createLoanDoc_schema]\<rparr>)
       = \<lparr>tools = [Schema createLoanDoc_schema]\<rparr>"
  using openai_tools_observes
    [of "\<lparr>tools = [Schema createLoanDoc_schema]\<rparr>" createLoanDoc_schema "''file_search''"]
  by (simp add: encode_entry_def)

text \<open>
  C10. In every registry built by the constructor, \<open>add_builtin\<close> and \<open>add_function\<close>,
  each entry that is not a schema is a dict with the single key \<open>type\<close> and a value in
  \<open>{code_interpreter, file_search}\<close>. The default factory builds such a registry, and
  it holds five entries: the two built-ins, then the schemas of \<open>webSearch\<close>,
  \<open>getRateSheet\<close> and \<open>createLoanDoc\<close>.
\<close>

theorem registry_invariant:
  "(\<forall>reg. reachable reg \<longrightarrow> builtins_valid reg)
   \<and> (\<exists>reg. default_registry = Inr reg \<and> reachable reg
        \<and> length (tools reg) = 5
        \<and> tools reg = [Builtin [(''type'', ''code_interpreter'')],
                        Builtin [(''type'', ''file_search'')],
                        Schema webSearch_schema, Schema getRateSheet_schema,
                        Schema createLoanDoc_schema])
   \<and> name webSearch_schema = ''webSearch''
   \<and> name getRateSheet_schema = ''getRateSheet''
   \<and> name createLoanDoc_schema = ''createLoanDoc''"
proof -
  have "\<forall>reg. reachable reg \<longrightarrow> builtins_valid reg"
    by (simp add: reachable_valid)
  moreover have "\<exists>reg. default_registry = Inr reg \<and> reachable reg
        \<and> length (tools reg) = 5
        \<and> tools reg = [Builtin [(''type'', ''code_interpreter'')],
                        Builtin [(''type'', ''file_search'')],
                        Schema webSearch_schema, Schema getRateSheet_schema,
                        Schema createLoanDoc_schema]"
    by (rule exI [of _ "\<lparr>tools = [Builtin [(''type'', ''code_interpreter'')],
                        Builtin [(''type'', ''file_search'')],
                        Schema webSearch_schema, Schema getRateSheet_schema,
                        Schema createLoanDoc_schema]\<rparr>"])
      (simp add: default_registry_tools default_registry_reachable)
  moreover have "name webSearch_schema = ''webSearch''"
    by (simp add: webSearch_schema_def)
  moreover have "name getRateSheet_schema = ''getRateSheet''"
    by (simp add: getRateSheet_schema_def)
  moreover have "name createLoanDoc_schema = ''createLoanDoc''"
    by (simp add: createLoanDoc_schema_def)
  ultimately show ?thesis by blast
qed

theorem registry_invariant_witness:
  "reachable (snd (add_builtin ''retrieval'' (snd (add_builtin ''file_search'' ToolRegistry_init))))
   \<and> builtins_valid (snd (add_builtin ''retrieval'' (snd (add_builtin ''file_search'' ToolRegistry_init))))
   \<and> tools (snd (add_builtin ''retrieval'' (snd (add_builtin ''file_search'' ToolRegistry_init))))
       = [Builtin [(''type'', ''file_search'')]]"
proof -
  have r: "reachable (snd (add_builtin ''retrieval'' (snd (add_builtin ''file_search'' ToolRegistry_init))))"
    by (intro reachable.intros)
  moreover from r registry_invariant
  have "builtins_valid (snd (add_builtin ''retrieval'' (snd (add_builtin ''file_search'' ToolRegistry_init))))"
    by blast
  moreover have "tools (snd (add_builtin ''retrieval'' (snd (add_builtin ''file_search'' ToolRegistry_init))))
       = [Builtin [(''type'', ''file_search'')]]"
    by (simp add: add_builtin_def ToolRegistry_init_def)
  ultimately show ?thesis by blast
qed

section \<open>Properties of the dispatcher\<close>

subsection \<open>Formatting\<close>

lemma decimal_740: "decimal 740 = ''740''"
  by code_simp

lemma length_decimal_power: "length (decimal (10 ^ k)) = Suc k"
proof (induction k)
  case 0
  show ?case by (subst decimal.simps) simp
next
  case (Suc k)
  have "decimal (10 ^ Suc k) = decimal (10 ^ k) @ [char_of (48 + (10 ^ Suc k) mod (10 :: nat))]"
    by (subst decimal.simps) simp
  with Suc show ?case by simp
qed

lemma big_int_not_printable: "\<not> printable (PInt (10 ^ default_max_str_digits))"
proof -
  have n: "nat \<bar>(10 :: int) ^ default_max_str_digits\<bar> = 10 ^ default_max_str_digits"
    by (simp add: nat_power_eq)
  show ?thesis
    by (simp only: printable_def pyval.case n length_decimal_power)
qed

lemma py_str_printable: "printable v \<Longrightarrow> \<exists>s. py_str v = Inr s"
  by (cases v) (simp_all add: py_str_def printable_def)

lemma py_str_not_printable: "\<not> printable v \<Longrightarrow> py_str v = Inl int_max_str_digits_error"
  by (cases v) (simp_all add: py_str_def printable_def)

lemma f_string_printable: "parts_printable parts \<Longrightarrow> \<exists>s. f_string parts = Inr s"
proof (induction parts)
  case Nil
  show ?case by simp
next
  case (Cons p parts)
  then obtain rest where rest: "f_string parts = Inr rest"
    by (auto simp: parts_printable_def)
  show ?case
  proof (cases p)
    case (Lit s)
    with rest show ?thesis by simp
  next
    case (Val v)
    with Cons.prems have "printable v"
      by (simp add: parts_printable_def)
    from py_str_printable [OF this] obtain s where "py_str v = Inr s" by blast
    with Val rest show ?thesis by simp
  qed
qed

lemma f_string_not_printable:
  "\<not> parts_printable parts \<Longrightarrow> f_string parts = Inl int_max_str_digits_error"
proof (induction parts)
  case Nil
  then show ?case by (simp add: parts_printable_def)
next
  case (Cons p parts)
  show ?case
  proof (cases p)
    case (Lit s)
    with Cons show ?thesis by (simp add: parts_printable_def)
  next
    case (Val v)
    show ?thesis
    proof (cases "printable v")
      case True
      with Cons Val have "f_string parts = Inl int_max_str_digits_error"
        by (simp add: parts_printable_def)
      moreover from py_str_printable [OF True] obtain s where "py_str v = Inr s" by blast
      ultimately show ?thesis using Val by simp
    next
      case False
      with Val show ?thesis by (simp add: py_str_not_printable)
    qed
  qed
qed

lemma f_string_cases:
  "(parts_printable parts \<and> (\<exists>s. f_string parts = Inr s))
   \<or> (\<not> parts_printable parts \<and> f_string parts = Inl int_max_str_digits_error)"
  using f_string_printable f_string_not_printable by blast

subsection \<open>One request\<close>

lemma map_of_Some_key: "map_of args k = Some v \<Longrightarrow> k \<in> fst ` set args"
  by (metis map_of_eq_None_iff option.distinct(1))

lemma arguments_bind_iff:
  "arguments_bind required_params optional_params args \<longleftrightarrow>
     \<not> unexpected_keyword (required_params @ optional_params) args
     \<and> (\<forall>p\<in>set required_params. map_of args p \<noteq> None)"
  by (auto simp: arguments_bind_def unexpected_keyword_def list_all_iff list_ex_iff
      map_of_eq_None_iff)

lemma call_web_search_cases:
  "(arguments_bind [''query''] [''freshness_days''] args
      \<and> passed_printable [''query'', ''freshness_days''] args
      \<and> (\<exists>s. call_web_search args = Inr s))
   \<or> (\<not> arguments_bind [''query''] [''freshness_days''] args
      \<and> call_web_search args = Inl TypeError)
   \<or> (\<not> passed_printable [''query'', ''freshness_days''] args
      \<and> call_web_search args = Inl int_max_str_digits_error)"
proof (cases "arguments_bind [''query''] [''freshness_days''] args")
  case False
  then show ?thesis
    by (auto simp: arguments_bind_iff call_web_search_def)
next
  case True
  then obtain q where q: "map_of args ''query'' = Some q"
    and kw: "\<not> unexpected_keyword [''query'', ''freshness_days''] args"
    by (auto simp: arguments_bind_iff)
  define f where "f = (case map_of args ''freshness_days'' of None \<Rightarrow> PNone | Some d \<Rightarrow> d)"
  have call: "call_web_search args = web_search q f"
    using q kw by (simp add: call_web_search_def f_def)
  have pp: "passed_printable [''query'', ''freshness_days''] args
      \<longleftrightarrow> parts_printable [Lit (''<mock WebSearch results for '' @ [CHR 0x27]), Val q,
               Lit ([CHR 0x27] @ '', freshness=''), Val f, Lit ''>'']"
    using q by (auto simp: passed_printable_def parts_printable_def f_def printable_def
        split: option.splits)
  from f_string_cases [of "[Lit (''<mock WebSearch results for '' @ [CHR 0x27]), Val q,
               Lit ([CHR 0x27] @ '', freshness=''), Val f, Lit ''>'']"]
  show ?thesis
    unfolding call web_search_def pp [symmetric] using True by blast
qed

lemma call_get_rate_sheet_cases:
  "(arguments_bind [''loanType'', ''fico'', ''ltv''] [] args
      \<and> passed_printable [''loanType'', ''fico'', ''ltv''] args
      \<and> (\<exists>s. call_get_rate_sheet args = Inr s))
   \<or> (\<not> arguments_bind [''loanType'', ''fico'', ''ltv''] [] args
      \<and> call_get_rate_sheet args = Inl TypeError)
   \<or> (\<not> passed_printable [''loanType'', ''fico'', ''ltv''] args
      \<and> call_get_rate_sheet args = Inl int_max_str_digits_error)"
proof (cases "arguments_bind [''loanType'', ''fico'', ''ltv''] [] args")
  case False
  then show ?thesis
    by (auto simp: arguments_bind_iff call_get_rate_sheet_def split: option.splits)
next
  case True
  then obtain a b c where vals: "map_of args ''loanType'' = Some a"
      "map_of args ''fico'' = Some b" "map_of args ''ltv'' = Some c"
    and kw: "\<not> unexpected_keyword [''loanType'', ''fico'', ''ltv''] args"
    by (auto simp: arguments_bind_iff)
  have call: "call_get_rate_sheet args = get_rate_sheet a b c"
    using vals kw by (simp add: call_get_rate_sheet_def)
  have pp: "passed_printable [''loanType'', ''fico'', ''ltv''] args
      \<longleftrightarrow> parts_printable [Lit (''RateSheet mock '' @ rightwards_arrow @ '' ''), Val a,
               Lit ''|FICO '', Val b, Lit ''|LTV '', Val c,
               Lit ('' '' @ rightwards_double_arrow @ '' 6.25%/0.2 pts'')]"
    using vals by (simp add: passed_printable_def parts_printable_def)
  from f_string_cases [of "[Lit (''RateSheet mock '' @ rightwards_arrow @ '' ''), Val a,
               Lit ''|FICO '', Val b, Lit ''|LTV '', Val c,
               Lit ('' '' @ rightwards_double_arrow @ '' 6.25%/0.2 pts'')]"]
  show ?thesis
    unfolding call get_rate_sheet_def pp [symmetric] using True by blast
qed

lemma call_create_loan_doc_cases:
  "(arguments_bind [''borrowerId'', ''templateId''] [] args
      \<and> passed_printable [''borrowerId'', ''templateId''] args
      \<and> (\<exists>s. call_create_loan_doc args = Inr s))
   \<or> (\<not> arguments_bind [''borrowerId'', ''templateId''] [] args
      \<and> call_create_loan_doc args = Inl TypeError)
   \<or> (\<not> passed_printable [''borrowerId'', ''templateId''] args
      \<and> call_create_loan_doc args = Inl int_max_str_digits_error)"
proof (cases "arguments_bind [''borrowerId'', ''templateId''] [] args")
  case False
  then show ?thesis
    by (auto simp: arguments_bind_iff call_create_loan_doc_def split: option.splits)
next
  case True
  then obtain a b where vals: "map_of args ''borrowerId'' = Some a"
      "map_of args ''templateId'' = Some b"
    and kw: "\<not> unexpected_keyword [''borrowerId'', ''templateId''] args"
    by (auto simp: arguments_bind_iff)
  have call: "call_create_loan_doc args = create_loan_doc a b"
    using vals kw by (simp add: call_create_loan_doc_def)
  have pp: "passed_printable [''borrowerId'', ''templateId''] args
      \<longleftrightarrow> parts_printable [Lit ''file_mock_'', Val a, Lit ''_'', Val b]"
    using vals by (simp add: passed_printable_def parts_printable_def)
  from f_string_cases [of "[Lit ''file_mock_'', Val a, Lit ''_'', Val b]"]
  show ?thesis
    unfolding call create_loan_doc_def pp [symmetric] using True by blast
qed

lemma handle_call_cases:
  "(call_returns call
      \<and> (\<exists>out. handle_call call = Inr \<lparr>tool_call_id = call_id call, output_str = out\<rparr>))
   \<or> (\<not> call_returns call
      \<and> (handle_call call = Inl TypeError \<or> handle_call call = Inl int_max_str_digits_error))"
proof -
  let ?name = "fn_name (call_function call)"
  let ?args = "fn_arguments (call_function call)"
  consider "?name = ''webSearch''" | "?name = ''getRateSheet''" | "?name = ''createLoanDoc''"
    | "?name \<notin> {''webSearch'', ''getRateSheet'', ''createLoanDoc''}"
    by auto
  then show ?thesis
  proof cases
    case 1
    with call_web_search_cases [of ?args] show ?thesis
      by (auto simp: handle_call_def call_returns_def Let_def tool_result_def)
  next
    case 2
    with call_get_rate_sheet_cases [of ?args] show ?thesis
      by (auto simp: handle_call_def call_returns_def Let_def tool_result_def)
  next
    case 3
    with call_create_loan_doc_cases [of ?args] show ?thesis
      by (auto simp: handle_call_def call_returns_def Let_def tool_result_def)
  next
    case 4
    then show ?thesis
      by (simp add: handle_call_def call_returns_def Let_def)
  qed
qed

lemma handle_call_returns:
  "call_returns call \<Longrightarrow>
     \<exists>out. handle_call call = Inr \<lparr>tool_call_id = call_id call, output_str = out\<rparr>"
  using handle_call_cases [of call] by blast

lemma handle_call_error:
  "handle_call call = Inl e \<Longrightarrow>
     \<not> call_returns call \<and> (e = TypeError \<or> e = int_max_str_digits_error)"
  using handle_call_cases [of call] by auto

lemma handle_call_id: "handle_call call = Inr out \<Longrightarrow> tool_call_id out = call_id call"
  using handle_call_cases [of call] by auto

lemma handle_call_unknown:
  "fn_name (call_function call) \<notin> {''webSearch'', ''getRateSheet'', ''createLoanDoc''} \<Longrightarrow>
     handle_call call =
       Inr \<lparr>tool_call_id = call_id call,
            output_str = ''Unknown tool '' @ fn_name (call_function call)\<rparr>"
  by (simp add: handle_call_def Let_def)

lemma handle_call_rate_call: "handle_call rate_call = Inr rate_call_output"
  by (simp add: rate_call_def rate_call_output_def sim_call_def handle_call_def tool_result_def
      call_get_rate_sheet_def unexpected_keyword_def get_rate_sheet_def py_str_def
      default_max_str_digits_def decimal_740)

lemma handle_call_big_doc_call: "handle_call big_doc_call = Inl int_max_str_digits_error"
  by (simp add: big_doc_call_def sim_call_def handle_call_def tool_result_def
      call_create_loan_doc_def unexpected_keyword_def create_loan_doc_def
      py_str_not_printable [OF big_int_not_printable])

subsection \<open>The loop\<close>

lemma handle_step_loop_Inr:
  "handle_step_loop calls acc = Inr outs \<Longrightarrow>
     \<exists>new. outs = acc @ new \<and> map handle_call calls = map Inr new"
proof (induction calls arbitrary: acc)
  case Nil
  then show ?case by simp
next
  case (Cons call calls)
  from Cons.prems obtain out where out: "handle_call call = Inr out"
    and rest: "handle_step_loop calls (acc @ [out]) = Inr outs"
    by (auto split: sum.splits)
  from Cons.IH [OF rest] obtain new where "outs = (acc @ [out]) @ new"
    and "map handle_call calls = map Inr new" by blast
  with out
  have "outs = acc @ (out # new) \<and> map handle_call (call # calls) = map Inr (out # new)"
    by simp
  then show ?case by blast
qed

lemma handle_step_loop_Inl:
  "handle_step_loop calls acc = Inl e \<Longrightarrow>
     \<exists>before c after. calls = before @ c # after
       \<and> list_all (\<lambda>b. \<not> isl (handle_call b)) before \<and> handle_call c = Inl e"
proof (induction calls arbitrary: acc)
  case Nil
  then show ?case by simp
next
  case (Cons call calls)
  show ?case
  proof (cases "handle_call call")
    case (Inl e')
    with Cons.prems have "call # calls = [] @ call # calls
        \<and> list_all (\<lambda>b. \<not> isl (handle_call b)) [] \<and> handle_call call = Inl e"
      by simp
    then show ?thesis by blast
  next
    case (Inr out)
    with Cons.prems have "handle_step_loop calls (acc @ [out]) = Inl e"
      by simp
    from Cons.IH [OF this] obtain before c after where "calls = before @ c # after"
      and "list_all (\<lambda>b. \<not> isl (handle_call b)) before" and "handle_call c = Inl e"
      by blast
    with Inr have "call # calls = (call # before) @ c # after
        \<and> list_all (\<lambda>b. \<not> isl (handle_call b)) (call # before) \<and> handle_call c = Inl e"
      by simp
    then show ?thesis by blast
  qed
qed

lemma handle_step_loop_returns:
  "list_all call_returns calls \<Longrightarrow> \<exists>outs. handle_step_loop calls acc = Inr outs"
proof (induction calls arbitrary: acc)
  case Nil
  show ?case by simp
next
  case (Cons call calls)
  then obtain out where "handle_call call = Inr out"
    using handle_call_returns by fastforce
  with Cons show ?case by simp
qed

lemma handle_step_loop_served:
  assumes "handle_step_loop calls acc = Inr outs"
  shows "list_all call_returns calls"
proof -
  from handle_step_loop_Inr [OF assms] obtain new
    where new: "map handle_call calls = map Inr new" by blast
  have "call_returns c" if "c \<in> set calls" for c
  proof -
    from that new have "handle_call c \<in> Inr ` set new"
      by (metis image_eqI list.set_map)
    then show ?thesis
      using handle_call_cases [of c] by auto
  qed
  then show ?thesis by (simp add: list_all_iff)
qed

lemma map_eq_nth:
  "map f xs = map g ys \<Longrightarrow> length xs = length ys \<and> (\<forall>i<length ys. f (xs ! i) = g (ys ! i))"
  by (metis length_map nth_map)

lemma results_ids:
  assumes "map handle_call calls = map Inr outs"
  shows "map tool_call_id outs = map call_id calls"
proof (rule nth_equalityI)
  from map_eq_nth [OF assms] show len: "length (map tool_call_id outs) = length (map call_id calls)"
    by simp
  fix i assume "i < length (map tool_call_id outs)"
  with len have i: "i < length outs" "i < length calls" by simp_all
  with map_eq_nth [OF assms] have "handle_call (calls ! i) = Inr (outs ! i)" by simp
  from handle_call_id [OF this] i show "map tool_call_id outs ! i = map call_id calls ! i"
    by simp
qed

text \<open>
  C1, as the code has it. \<open>handle_step\<close> has no handler around the tool calls, so it
  returns a list exactly when every call of the batch returns: when each request names
  none of the three tools, or carries keyword arguments that bind to the parameters of
  its tool and whose ints have no more than 4300 digits. The list it returns holds one
  result per request, in the order of the requests: the i-th result is the one computed
  for the i-th request and carries its id.
\<close>

theorem handle_step_one_result_per_request:
  assumes "required_action run_obj = Some tool_calls"
  shows "((\<exists>outputs. handle_step run_obj = Inr outputs) \<longleftrightarrow> list_all call_returns tool_calls)
       \<and> (\<forall>outputs. handle_step run_obj = Inr outputs \<longrightarrow>
             length outputs = length tool_calls
             \<and> map handle_call tool_calls = map Inr outputs
             \<and> map tool_call_id outputs = map call_id tool_calls
             \<and> (\<forall>i<length tool_calls. tool_call_id (outputs ! i) = call_id (tool_calls ! i)))"
proof -
  have step: "handle_step run_obj = handle_step_loop tool_calls []"
    using assms by (simp add: handle_step_def)
  have returns: "(\<exists>outputs. handle_step run_obj = Inr outputs) \<longleftrightarrow> list_all call_returns tool_calls"
    unfolding step using handle_step_loop_returns handle_step_loop_served by blast
  have shape: "length outputs = length tool_calls
             \<and> map handle_call tool_calls = map Inr outputs
             \<and> map tool_call_id outputs = map call_id tool_calls
             \<and> (\<forall>i<length tool_calls. tool_call_id (outputs ! i) = call_id (tool_calls ! i))"
    if "handle_step run_obj = Inr outputs" for outputs
  proof -
    from that step have "handle_step_loop tool_calls [] = Inr outputs"
      by simp
    from handle_step_loop_Inr [OF this]
    have results: "map handle_call tool_calls = map Inr outputs" by simp
    from results_ids [OF results]
    have ids: "map tool_call_id outputs = map call_id tool_calls" .
    with map_eq_nth [OF ids] results show ?thesis by simp
  qed
  from returns shape show ?thesis by blast
qed

theorem handle_step_one_result_per_request_witness:
  "required_action (sim_action [rate_call, sim_call ''call_2'' ''lookupBorrower'' []])
     = Some [rate_call, sim_call ''call_2'' ''lookupBorrower'' []]
   \<and> list_all call_returns [rate_call, sim_call ''call_2'' ''lookupBorrower'' []]
   \<and> handle_step (sim_action [rate_call, sim_call ''call_2'' ''lookupBorrower'' []])
       = Inr [rate_call_output,
              \<lparr>tool_call_id = ''call_2'', output_str = ''Unknown tool lookupBorrower''\<rparr>]
   \<and> map tool_call_id [rate_call_output,
              \<lparr>tool_call_id = ''call_2'', output_str = ''Unknown tool lookupBorrower''\<rparr>]
       = map call_id [rate_call, sim_call ''call_2'' ''lookupBorrower'' []]"
proof -
  let ?calls = "[rate_call, sim_call ''call_2'' ''lookupBorrower'' []]"
  let ?outs = "[rate_call_output,
              \<lparr>tool_call_id = ''call_2'', output_str = ''Unknown tool lookupBorrower''\<rparr>]"
  have req: "required_action (sim_action ?calls) = Some ?calls"
    by (simp add: sim_action_def)
  have unknown: "handle_call (sim_call ''call_2'' ''lookupBorrower'' [])
      = Inr \<lparr>tool_call_id = ''call_2'', output_str = ''Unknown tool lookupBorrower''\<rparr>"
    by (simp add: sim_call_def handle_call_def)
  have out: "handle_step (sim_action ?calls) = Inr ?outs"
    by (simp add: handle_step_def sim_action_def handle_call_rate_call unknown)
  note claim = handle_step_one_result_per_request [OF req]
  from claim out have served: "list_all call_returns ?calls"
    by blast
  from claim out have "map tool_call_id ?outs = map call_id ?calls"
    by blast
  with req served out show ?thesis
    by (intro conjI)
qed

text \<open>
  C1, as the claim states it, fails: a \<open>webSearch\<close> request without \<open>query\<close> makes the
  call \<open>self.web_search(**args)\<close> raise, and \<open>handle_step\<close> returns no result at all.
\<close>

theorem handle_step_one_result_counterexample:
  "handle_step (sim_action [sim_call ''call_1'' ''webSearch'' []]) = Inl TypeError"
  by (simp add: handle_step_def sim_action_def sim_call_def handle_call_def tool_result_def
      call_web_search_def unexpected_keyword_def)

text \<open>
  C2, as the code has it. An exception raised by a tool call is not caught. The calls of
  the three tools raise \<open>TypeError\<close>, when the arguments do not bind, or \<open>ValueError\<close>,
  when an int argument has more than 4300 digits. When the call made for some request
  of the batch raises, \<open>handle_step\<close> raises too and returns no results: what it raises
  is the exception of the first request of the batch whose call raises.
\<close>

theorem handle_step_propagates:
  assumes "required_action run_obj = Some tool_calls"
    and "call \<in> set tool_calls"
    and "handle_call call = Inl e"
  shows "(e = TypeError \<or> e = int_max_str_digits_error)
       \<and> (\<exists>before c after e'.
             tool_calls = before @ c # after
             \<and> list_all (\<lambda>b. \<not> isl (handle_call b)) before
             \<and> handle_call c = Inl e'
             \<and> (e' = TypeError \<or> e' = int_max_str_digits_error)
             \<and> handle_step run_obj = Inl e')"
proof -
  have step: "handle_step run_obj = handle_step_loop tool_calls []"
    using assms(1) by (simp add: handle_step_def)
  have "\<not> call_returns call"
    using handle_call_error [OF assms(3)] by simp
  with assms(2) have "\<not> list_all call_returns tool_calls"
    by (auto simp: list_all_iff)
  then have "\<nexists>outs. handle_step_loop tool_calls [] = Inr outs"
    using handle_step_loop_served by blast
  then obtain e' where raised: "handle_step_loop tool_calls [] = Inl e'"
    by (cases "handle_step_loop tool_calls []") auto
  from handle_step_loop_Inl [OF raised] obtain before c after
    where split: "tool_calls = before @ c # after"
      "list_all (\<lambda>b. \<not> isl (handle_call b)) before" "handle_call c = Inl e'"
    by blast
  from handle_call_error [OF split(3)] have "e' = TypeError \<or> e' = int_max_str_digits_error"
    by simp
  with split raised step handle_call_error [OF assms(3)] show ?thesis
    by auto
qed

theorem handle_step_propagates_witness:
  "required_action (sim_action [rate_call, big_doc_call, sim_call ''call_3'' ''webSearch'' []])
     = Some [rate_call, big_doc_call, sim_call ''call_3'' ''webSearch'' []]
   \<and> big_doc_call \<in> set [rate_call, big_doc_call, sim_call ''call_3'' ''webSearch'' []]
   \<and> handle_call big_doc_call = Inl int_max_str_digits_error
   \<and> (int_max_str_digits_error = TypeError \<or> int_max_str_digits_error = int_max_str_digits_error)
   \<and> handle_step (sim_action [rate_call, big_doc_call, sim_call ''call_3'' ''webSearch'' []])
       = Inl int_max_str_digits_error"
proof -
  let ?calls = "[rate_call, big_doc_call, sim_call ''call_3'' ''webSearch'' []]"
  have req: "required_action (sim_action ?calls) = Some ?calls"
    by (simp add: sim_action_def)
  have mem: "big_doc_call \<in> set ?calls"
    by simp
  note bad = handle_call_big_doc_call
  have out: "handle_step (sim_action ?calls) = Inl int_max_str_digits_error"
    by (simp add: handle_step_def sim_action_def handle_call_rate_call bad)
  from handle_step_propagates [OF req mem bad]
  have "int_max_str_digits_error = TypeError \<or> int_max_str_digits_error = int_max_str_digits_error"
    by (rule conjunct1)
  with req mem bad out show ?thesis
    by (intro conjI)
qed

text \<open>
  C2, as the claim states it, fails: in a batch of an unknown tool and a
  \<open>createLoanDoc\<close> request without \<open>templateId\<close>, the second call raises and
  \<open>handle_step\<close> raises with it, instead of returning two results.
\<close>

theorem handle_step_isolation_counterexample:
  "handle_step (sim_action [sim_call ''call_1'' ''lookupBorrower'' [],
                            sim_call ''call_2'' ''createLoanDoc'' [(''borrowerId'', PStr ''b7'')]])
     = Inl TypeError"
  by (simp add: handle_step_def sim_action_def sim_call_def handle_call_def tool_result_def
      call_create_loan_doc_def unexpected_keyword_def)

text \<open>
  C6. A request whose tool name is none of \<open>webSearch\<close>, \<open>getRateSheet\<close>,
  \<open>createLoanDoc\<close> raises nothing: its result carries the request's id and the output
  \<open>Unknown tool\<close> followed by the name. In a batch that holds such a request, the
  other requests are processed as they are without it: when \<open>handle_step\<close> returns, the
  list has one result per request, the result at the position of the unknown request is
  that marker, and the results at the other positions are those of the other requests;
  \<open>handle_step\<close> returns whenever the calls of the other requests return, and when it
  raises, the exception is that of another request.
\<close>

theorem handle_step_unknown_tool:
  assumes "fn_name (call_function call) \<notin> {''webSearch'', ''getRateSheet'', ''createLoanDoc''}"
    and "required_action run_obj = Some (before @ call # after)"
  shows "handle_call call =
           Inr \<lparr>tool_call_id = call_id call,
                output_str = ''Unknown tool '' @ fn_name (call_function call)\<rparr>
       \<and> ((\<exists>outputs. handle_step run_obj = Inr outputs)
            \<longleftrightarrow> list_all call_returns (before @ after))
       \<and> (\<forall>outputs. handle_step run_obj = Inr outputs \<longrightarrow>
             length outputs = length before + 1 + length after
             \<and> outputs ! length before =
                 \<lparr>tool_call_id = call_id call,
                  output_str = ''Unknown tool '' @ fn_name (call_function call)\<rparr>
             \<and> map handle_call before = map Inr (take (length before) outputs)
             \<and> map handle_call after = map Inr (drop (Suc (length before)) outputs))
       \<and> (\<forall>e. handle_step run_obj = Inl e \<longrightarrow>
             (\<exists>other\<in>set (before @ after). handle_call other = Inl e))"
proof -
  let ?marker = "\<lparr>tool_call_id = call_id call,
                  output_str = ''Unknown tool '' @ fn_name (call_function call)\<rparr>"
  let ?calls = "before @ call # after"
  have step: "handle_step run_obj = handle_step_loop ?calls []"
    using assms(2) by (simp add: handle_step_def)
  have marker: "handle_call call = Inr ?marker"
    using assms(1) by (rule handle_call_unknown)
  have served: "call_returns call"
    using handle_call_cases [of call] marker by auto
  have returns: "(\<exists>outputs. handle_step run_obj = Inr outputs)
      \<longleftrightarrow> list_all call_returns (before @ after)"
  proof -
    have "(\<exists>outputs. handle_step run_obj = Inr outputs) \<longleftrightarrow> list_all call_returns ?calls"
      unfolding step using handle_step_loop_returns handle_step_loop_served by blast
    with served show ?thesis by simp
  qed
  have shape: "length outputs = length before + 1 + length after
             \<and> outputs ! length before = ?marker
             \<and> map handle_call before = map Inr (take (length before) outputs)
             \<and> map handle_call after = map Inr (drop (Suc (length before)) outputs)"
    if "handle_step run_obj = Inr outputs" for outputs
  proof -
    from that step have "handle_step_loop ?calls [] = Inr outputs"
      by simp
    from handle_step_loop_Inr [OF this]
    have results: "map handle_call ?calls = map Inr outputs" by simp
    then have len: "length outputs = length before + 1 + length after"
      by (metis One_nat_def add.assoc add_Suc length_Cons length_append length_map plus_1_eq_Suc)
    from results have "map Inr outputs ! length before = map handle_call ?calls ! length before"
      by simp
    with len marker have at: "outputs ! length before = ?marker"
      by (simp add: nth_append)
    from results have "take (length before) (map handle_call ?calls)
        = take (length before) (map Inr outputs)"
      by simp
    then have pre: "map handle_call before = map Inr (take (length before) outputs)"
      by (simp add: take_map)
    from results have "drop (Suc (length before)) (map handle_call ?calls)
        = drop (Suc (length before)) (map Inr outputs)"
      by simp
    then have post: "map handle_call after = map Inr (drop (Suc (length before)) outputs)"
      by (simp add: drop_map)
    from len at pre post show ?thesis by simp
  qed
  have raises: "\<exists>other\<in>set (before @ after). handle_call other = Inl e"
    if "handle_step run_obj = Inl e" for e
  proof -
    from that step have "handle_step_loop ?calls [] = Inl e"
      by simp
    from handle_step_loop_Inl [OF this] obtain c where "c \<in> set ?calls"
      and c: "handle_call c = Inl e"
      by (metis in_set_conv_decomp)
    with marker have "c \<in> set (before @ after)"
      by auto
    with c show ?thesis by blast
  qed
  from marker returns shape raises show ?thesis by blast
qed

theorem handle_step_unknown_tool_witness:
  "fn_name (call_function (sim_call ''call_0'' ''lookupBorrower'' []))
     \<notin> {''webSearch'', ''getRateSheet'', ''createLoanDoc''}
   \<and> required_action (sim_action [sim_call ''call_0'' ''lookupBorrower'' [], rate_call])
       = Some ([] @ sim_call ''call_0'' ''lookupBorrower'' [] # [rate_call])
   \<and> handle_call (sim_call ''call_0'' ''lookupBorrower'' [])
       = Inr \<lparr>tool_call_id = ''call_0'', output_str = ''Unknown tool lookupBorrower''\<rparr>
   \<and> handle_step (sim_action [sim_call ''call_0'' ''lookupBorrower'' [], rate_call])
       = Inr [\<lparr>tool_call_id = ''call_0'', output_str = ''Unknown tool lookupBorrower''\<rparr>,
              rate_call_output]"
proof -
  let ?call = "sim_call ''call_0'' ''lookupBorrower'' []"
  have unknown: "fn_name (call_function ?call) \<notin> {''webSearch'', ''getRateSheet'', ''createLoanDoc''}"
    by (simp add: sim_call_def)
  have req: "required_action (sim_action [?call, rate_call]) = Some ([] @ ?call # [rate_call])"
    by (simp add: sim_action_def)
  from handle_step_unknown_tool [OF unknown req]
  have "handle_call ?call =
      Inr \<lparr>tool_call_id = call_id ?call,
           output_str = ''Unknown tool '' @ fn_name (call_function ?call)\<rparr>"
    by (rule conjunct1)
  then have marker: "handle_call ?call
      = Inr \<lparr>tool_call_id = ''call_0'', output_str = ''Unknown tool lookupBorrower''\<rparr>"
    by (simp add: sim_call_def)
  have out: "handle_step (sim_action [?call, rate_call])
      = Inr [\<lparr>tool_call_id = ''call_0'', output_str = ''Unknown tool lookupBorrower''\<rparr>,
             rate_call_output]"
    by (simp add: handle_step_def sim_action_def marker handle_call_rate_call)
  from unknown req marker out show ?thesis
    by (intro conjI)
qed

section \<open>Properties of the runner\<close>

lemma perform_trace: "snd (snd (perform ev f s)) = snd s @ [ev]"
  by (simp add: perform_def split: prod.splits)

lemma perform_result: "fst (perform ev f s) = fst (f (fst s))"
  by (simp add: perform_def split: prod.splits)

lemma poll_step_waiting_trace:
  "status run_obj \<noteq> ''requires_action'' \<Longrightarrow>
     snd (snd (poll_step self thread run_obj s))
       = snd s @ [Sleep, RunsRetrieve (run_id run_obj) (thread_id thread)]"
  by (simp add: poll_step_def and_then_def perform_def split: prod.splits)

lemma poll_step_action_trace:
  "status run_obj = ''requires_action'' \<Longrightarrow> handle_step run_obj = Inr outputs \<Longrightarrow>
     snd (snd (poll_step self thread run_obj s))
       = snd s @ [SubmitToolOutputs (run_id run_obj) (thread_id thread) outputs]"
  by (simp add: poll_step_def perform_trace)

lemma poll_loop_stops:
  "status run_obj \<notin> {''queued'', ''in_progress'', ''requires_action''} \<Longrightarrow>
     poll_loop self thread run_obj s = Some (Inr run_obj, s)"
  by (subst poll_loop.simps) simp

lemma poll_loop_continues:
  "status run_obj \<in> {''queued'', ''in_progress'', ''requires_action''} \<Longrightarrow>
     poll_loop self thread run_obj s =
       (case poll_step self thread run_obj s of
          (Inl e, s') \<Rightarrow> Some (Inl e, s')
        | (Inr run', s') \<Rightarrow> poll_loop self thread run' s')"
  by (subst poll_loop.simps) (simp only: if_True)

lemma poll_loop_exit_aux:
  assumes ret: "poll_loop self th r s = Some y"
  shows "case y of (Inl e, _) \<Rightarrow> True
              | (Inr r', _) \<Rightarrow> status r' \<notin> {''queued'', ''in_progress'', ''requires_action''}"
proof (rule poll_loop.raw_induct
    [where P = "\<lambda>_ _ _ _ y. case y of (Inl e, _) \<Rightarrow> True
       | (Inr r', _) \<Rightarrow> status r' \<notin> {''queued'', ''in_progress'', ''requires_action''}",
     OF _ ret])
  fix loop :: "'a AssistantRunner \<Rightarrow> thread \<Rightarrow> run_obj \<Rightarrow> 'a \<times> event list
     \<Rightarrow> ((error + run_obj) \<times> ('a \<times> event list)) option"
  fix self thread run_obj s y
  assume IH: "\<And>self thread run_obj s y. loop self thread run_obj s = Some y \<Longrightarrow>
     (case y of (Inl e, _) \<Rightarrow> True
       | (Inr r', _) \<Rightarrow> status r' \<notin> {''queued'', ''in_progress'', ''requires_action''})"
  assume unfolded:
    "(if status run_obj \<in> {''queued'', ''in_progress'', ''requires_action''}
      then (case poll_step self thread run_obj s of
              (Inl e, s') \<Rightarrow> Some (Inl e, s')
            | (Inr run', s') \<Rightarrow> loop self thread run' s')
      else Some (Inr run_obj, s)) = Some y"
  show "case y of (Inl e, _) \<Rightarrow> True
       | (Inr r', _) \<Rightarrow> status r' \<notin> {''queued'', ''in_progress'', ''requires_action''}"
  proof (cases "status run_obj \<in> {''queued'', ''in_progress'', ''requires_action''}")
    case True
    with unfolded have body:
      "(case poll_step self thread run_obj s of
          (Inl e, s') \<Rightarrow> Some (Inl e, s')
        | (Inr run', s') \<Rightarrow> loop self thread run' s') = Some y"
      by (simp only: if_True)
    obtain res s' where step: "poll_step self thread run_obj s = (res, s')"
      by (cases "poll_step self thread run_obj s")
    show ?thesis
    proof (cases res)
      case (Inl e)
      with body step show ?thesis by auto
    next
      case (Inr run')
      with body step have "loop self thread run' s' = Some y" by simp
      then show ?thesis by (rule IH)
    qed
  next
    case False
    with unfolded show ?thesis by auto
  qed
qed

lemma poll_loop_exit:
  "poll_loop self th r s = Some (Inr r', s') \<Longrightarrow>
     status r' \<notin> {''queued'', ''in_progress'', ''requires_action''}"
  using poll_loop_exit_aux [of self th r s "(Inr r', s')"] by simp

lemma run_from_stops:
  "status run_obj \<notin> {''queued'', ''in_progress'', ''requires_action''} \<Longrightarrow>
     run_from self thread run_obj s = Some (fetch_final_message self thread s)"
  by (simp add: run_from_def poll_loop_stops)

lemma run_from_continues:
  "status run_obj \<in> {''queued'', ''in_progress'', ''requires_action''} \<Longrightarrow>
     poll_step self thread run_obj s = (Inr run', s') \<Longrightarrow>
     run_from self thread run_obj s = run_from self thread run' s'"
  by (simp add: run_from_def poll_loop_continues)

lemma fetch_final_message_trace:
  "snd (snd (fetch_final_message self thread s)) = snd s @ [MessagesList (thread_id thread) ''asc'']"
  by (simp add: fetch_final_message_def and_then_def perform_def split: prod.splits sum.splits)

lemma fetch_final_message_result:
  "fst (fetch_final_message self thread s) =
     (case fst (messages_list (client self) (thread_id thread) ''asc'' (fst s)) of
        Inl e \<Rightarrow> Inl e
      | Inr msgs \<Rightarrow> last_text msgs)"
  by (simp add: fetch_final_message_def and_then_def perform_def split: prod.splits sum.splits)

lemma fetch_final_message_listed:
  "messages_list (client self) (thread_id thread) ''asc'' (fst s) = (Inr msgs, w') \<Longrightarrow>
     fetch_final_message self thread s
       = (last_text msgs, (w', snd s @ [MessagesList (thread_id thread) ''asc'']))"
  by (simp add: fetch_final_message_def and_then_def perform_def)

lemmas sim_defs =
  sim_runner_def sim_client_def sim_next_run_def sim_run_def sim_action_def sim_thread_def
  text_message_def

lemmas run_defs =
  run_def start_run_def run_from_def fetch_final_message_def poll_step_def and_then_def
  perform_def last_text_def handle_step_def

lemma run_after_loop:
  assumes "start_run self user_message thread_id_opt s0 = (Inr (thread, first), s1)"
    and "poll_loop self thread first s1 = Some (Inr final, s2)"
  shows "run self user_message thread_id_opt s0 = Some (fetch_final_message self thread s2)"
  using assms by (simp add: run_def run_from_def)

text \<open>
  C3, as the code has it. \<open>run\<close> never inspects the status after the loop. When the
  status the loop ends on is \<open>failed\<close>, \<open>cancelled\<close> or \<open>expired\<close>, \<open>run\<close> goes on
  as it does for a completed run: the one thing it still does is to list the messages of
  the thread, in ascending order, and it returns the text of the last one, or raises
  what that step raises. No tool outputs are submitted after the status was observed,
  and no \<open>RunFailedError\<close> is raised.
\<close>

theorem run_terminal_failure:
  assumes "start_run self user_message thread_id_opt s0 = (Inr (thread, first), s1)"
    and "poll_loop self thread first s1 = Some (Inr final, s2)"
    and "status final \<in> {''failed'', ''cancelled'', ''expired''}"
  shows "run self user_message thread_id_opt s0 = Some (fetch_final_message self thread s2)
       \<and> run_from self thread final s2 = Some (fetch_final_message self thread s2)
       \<and> fst (fetch_final_message self thread s2) =
           (case fst (messages_list (client self) (thread_id thread) ''asc'' (fst s2)) of
              Inl e \<Rightarrow> Inl e
            | Inr msgs \<Rightarrow> last_text msgs)
       \<and> snd (snd (fetch_final_message self thread s2))
           = snd s2 @ [MessagesList (thread_id thread) ''asc'']
       \<and> \<not> list_ex is_submission
             (drop (length (snd s2)) (snd (snd (fetch_final_message self thread s2))))"
proof -
  from assms(3) have "status final \<notin> {''queued'', ''in_progress'', ''requires_action''}"
    by auto
  then have "run_from self thread final s2 = Some (fetch_final_message self thread s2)"
    by (rule run_from_stops)
  with run_after_loop [OF assms(1,2)] show ?thesis
    by (simp add: fetch_final_message_result fetch_final_message_trace is_submission_def)
qed

theorem run_terminal_failure_witness:
  "start_run sim_runner ''Any news?'' (Some ''thread_1'')
      (\<lparr>responses = [sim_run ''queued'', sim_run ''expired''],
        listing = [text_message ''user'' ''Any news?'']\<rparr>, [])
     = (Inr (sim_thread, sim_run ''queued''),
        (\<lparr>responses = [sim_run ''expired''], listing = [text_message ''user'' ''Any news?'']\<rparr>,
         [ThreadsRetrieve ''thread_1'', MessagesCreate ''thread_1'' ''user'' ''Any news?'',
          RunsCreate ''asst_1'' ''thread_1'' False]))
   \<and> poll_loop sim_runner sim_thread (sim_run ''queued'')
        (\<lparr>responses = [sim_run ''expired''], listing = [text_message ''user'' ''Any news?'']\<rparr>,
         [ThreadsRetrieve ''thread_1'', MessagesCreate ''thread_1'' ''user'' ''Any news?'',
          RunsCreate ''asst_1'' ''thread_1'' False])
     = Some (Inr (sim_run ''expired''),
        (\<lparr>responses = [], listing = [text_message ''user'' ''Any news?'']\<rparr>,
         [ThreadsRetrieve ''thread_1'', MessagesCreate ''thread_1'' ''user'' ''Any news?'',
          RunsCreate ''asst_1'' ''thread_1'' False, Sleep, RunsRetrieve ''run_1'' ''thread_1'']))
   \<and> status (sim_run ''expired'') \<in> {''failed'', ''cancelled'', ''expired''}
   \<and> run sim_runner ''Any news?'' (Some ''thread_1'')
        (\<lparr>responses = [sim_run ''queued'', sim_run ''expired''],
          listing = [text_message ''user'' ''Any news?'']\<rparr>, [])
     = Some (Inr ''Any news?'',
        (\<lparr>responses = [], listing = [text_message ''user'' ''Any news?'']\<rparr>,
         [ThreadsRetrieve ''thread_1'', MessagesCreate ''thread_1'' ''user'' ''Any news?'',
          RunsCreate ''asst_1'' ''thread_1'' False, Sleep, RunsRetrieve ''run_1'' ''thread_1'',
          MessagesList ''thread_1'' ''asc'']))"
proof -
  let ?s0 = "(\<lparr>responses = [sim_run ''queued'', sim_run ''expired''],
               listing = [text_message ''user'' ''Any news?'']\<rparr>, [] :: event list)"
  let ?s1 = "(\<lparr>responses = [sim_run ''expired''],
               listing = [text_message ''user'' ''Any news?'']\<rparr>,
              [ThreadsRetrieve ''thread_1'', MessagesCreate ''thread_1'' ''user'' ''Any news?'',
               RunsCreate ''asst_1'' ''thread_1'' False])"
  let ?s2 = "(\<lparr>responses = [], listing = [text_message ''user'' ''Any news?'']\<rparr>,
              [ThreadsRetrieve ''thread_1'', MessagesCreate ''thread_1'' ''user'' ''Any news?'',
               RunsCreate ''asst_1'' ''thread_1'' False, Sleep,
               RunsRetrieve ''run_1'' ''thread_1''])"
  have start: "start_run sim_runner ''Any news?'' (Some ''thread_1'') ?s0
                 = (Inr (sim_thread, sim_run ''queued''), ?s1)"
    by (simp add: run_defs sim_defs)
  have loop: "poll_loop sim_runner sim_thread (sim_run ''queued'') ?s1
                = Some (Inr (sim_run ''expired''), ?s2)"
    by (simp add: run_defs sim_defs poll_loop_continues poll_loop_stops)
  have st: "status (sim_run ''expired'') \<in> {''failed'', ''cancelled'', ''expired''}"
    by (simp add: sim_run_def)
  have final: "fetch_final_message sim_runner sim_thread ?s2
        = (Inr ''Any news?'',
           (\<lparr>responses = [], listing = [text_message ''user'' ''Any news?'']\<rparr>,
            [ThreadsRetrieve ''thread_1'', MessagesCreate ''thread_1'' ''user'' ''Any news?'',
             RunsCreate ''asst_1'' ''thread_1'' False, Sleep, RunsRetrieve ''run_1'' ''thread_1'',
             MessagesList ''thread_1'' ''asc'']))"
    by (simp add: run_defs sim_defs)
  from run_terminal_failure [OF start loop st]
  have "run sim_runner ''Any news?'' (Some ''thread_1'') ?s0
          = Some (fetch_final_message sim_runner sim_thread ?s2)"
    by (rule conjunct1)
  with final have "run sim_runner ''Any news?'' (Some ''thread_1'') ?s0
        = Some (Inr ''Any news?'',
           (\<lparr>responses = [], listing = [text_message ''user'' ''Any news?'']\<rparr>,
            [ThreadsRetrieve ''thread_1'', MessagesCreate ''thread_1'' ''user'' ''Any news?'',
             RunsCreate ''asst_1'' ''thread_1'' False, Sleep, RunsRetrieve ''run_1'' ''thread_1'',
             MessagesList ''thread_1'' ''asc'']))"
    by (simp only:)
  with start loop st show ?thesis
    by (intro conjI)
qed

text \<open>
  C3, as the claim states it, fails: on a run that is \<open>failed\<close> from the start and a
  thread that holds the user's message, \<open>run\<close> raises nothing and returns the user's own
  message.
\<close>

theorem run_failed_counterexample:
  "run sim_runner ''What is the rate?'' None
     (\<lparr>responses = [sim_run ''failed''],
       listing = [text_message ''user'' ''What is the rate?'']\<rparr>, [])
   = Some (Inr ''What is the rate?'',
       (\<lparr>responses = [], listing = [text_message ''user'' ''What is the rate?'']\<rparr>,
        [ThreadsCreate, MessagesCreate ''thread_1'' ''user'' ''What is the rate?'',
         RunsCreate ''asst_1'' ''thread_1'' False, MessagesList ''thread_1'' ''asc'']))"
  by (simp add: run_defs sim_defs poll_loop_continues poll_loop_stops)

text \<open>
  C5, as the code has it. When the loop ends on status \<open>completed\<close>, the messages of
  the thread are listed with \<open>order="asc"\<close>, and \<open>run\<close> returns the text of the first
  content part of the last message. When the list is empty, indexing it raises
  \<open>IndexError\<close>.
\<close>

theorem run_completed:
  assumes "start_run self user_message thread_id_opt s0 = (Inr (thread, first), s1)"
    and "poll_loop self thread first s1 = Some (Inr final, s2)"
    and "status final = ''completed''"
    and "messages_list (client self) (thread_id thread) ''asc'' (fst s2) = (Inr msgs, w')"
  shows "run self user_message thread_id_opt s0
           = Some (last_text msgs, (w', snd s2 @ [MessagesList (thread_id thread) ''asc'']))
       \<and> (msgs = [] \<longrightarrow> last_text msgs = Inl IndexError)
       \<and> (\<forall>v rest. msgs \<noteq> [] \<and> content (last msgs) = TextBlock v # rest \<longrightarrow>
             last_text msgs = Inr v)"
  using run_after_loop [OF assms(1,2)] fetch_final_message_listed [OF assms(4)]
  by (simp add: last_text_def)

theorem run_completed_witness:
  "start_run sim_runner ''What is the rate?'' None
      (\<lparr>responses = [sim_run ''in_progress'', sim_run ''completed''],
        listing = [text_message ''user'' ''What is the rate?'',
                   text_message ''assistant'' ''6.25%'']\<rparr>, [])
     = (Inr (sim_thread, sim_run ''in_progress''),
        (\<lparr>responses = [sim_run ''completed''],
          listing = [text_message ''user'' ''What is the rate?'',
                     text_message ''assistant'' ''6.25%'']\<rparr>,
         [ThreadsCreate, MessagesCreate ''thread_1'' ''user'' ''What is the rate?'',
          RunsCreate ''asst_1'' ''thread_1'' False]))
   \<and> poll_loop sim_runner sim_thread (sim_run ''in_progress'')
        (\<lparr>responses = [sim_run ''completed''],
          listing = [text_message ''user'' ''What is the rate?'',
                     text_message ''assistant'' ''6.25%'']\<rparr>,
         [ThreadsCreate, MessagesCreate ''thread_1'' ''user'' ''What is the rate?'',
          RunsCreate ''asst_1'' ''thread_1'' False])
     = Some (Inr (sim_run ''completed''),
        (\<lparr>responses = [],
          listing = [text_message ''user'' ''What is the rate?'',
                     text_message ''assistant'' ''6.25%'']\<rparr>,
         [ThreadsCreate, MessagesCreate ''thread_1'' ''user'' ''What is the rate?'',
          RunsCreate ''asst_1'' ''thread_1'' False, Sleep, RunsRetrieve ''run_1'' ''thread_1'']))
   \<and> status (sim_run ''completed'') = ''completed''
   \<and> run sim_runner ''What is the rate?'' None
        (\<lparr>responses = [sim_run ''in_progress'', sim_run ''completed''],
          listing = [text_message ''user'' ''What is the rate?'',
                     text_message ''assistant'' ''6.25%'']\<rparr>, [])
     = Some (Inr ''6.25%'',
        (\<lparr>responses = [],
          listing = [text_message ''user'' ''What is the rate?'',
                     text_message ''assistant'' ''6.25%'']\<rparr>,
         [ThreadsCreate, MessagesCreate ''thread_1'' ''user'' ''What is the rate?'',
          RunsCreate ''asst_1'' ''thread_1'' False, Sleep, RunsRetrieve ''run_1'' ''thread_1'',
          MessagesList ''thread_1'' ''asc'']))"
proof -
  let ?msgs = "[text_message ''user'' ''What is the rate?'', text_message ''assistant'' ''6.25%'']"
  let ?s0 = "(\<lparr>responses = [sim_run ''in_progress'', sim_run ''completed''], listing = ?msgs\<rparr>,
              [] :: event list)"
  let ?s1 = "(\<lparr>responses = [sim_run ''completed''], listing = ?msgs\<rparr>,
              [ThreadsCreate, MessagesCreate ''thread_1'' ''user'' ''What is the rate?'',
               RunsCreate ''asst_1'' ''thread_1'' False])"
  let ?s2 = "(\<lparr>responses = [], listing = ?msgs\<rparr>,
              [ThreadsCreate, MessagesCreate ''thread_1'' ''user'' ''What is the rate?'',
               RunsCreate ''asst_1'' ''thread_1'' False, Sleep,
               RunsRetrieve ''run_1'' ''thread_1''])"
  have start: "start_run sim_runner ''What is the rate?'' None ?s0
                 = (Inr (sim_thread, sim_run ''in_progress''), ?s1)"
    by (simp add: run_defs sim_defs)
  have loop: "poll_loop sim_runner sim_thread (sim_run ''in_progress'') ?s1
                = Some (Inr (sim_run ''completed''), ?s2)"
    by (simp add: run_defs sim_defs poll_loop_continues poll_loop_stops)
  have st: "status (sim_run ''completed'') = ''completed''"
    by (simp add: sim_run_def)
  have ls: "messages_list (client sim_runner) (thread_id sim_thread) ''asc'' (fst ?s2)
              = (Inr ?msgs, \<lparr>responses = [], listing = ?msgs\<rparr>)"
    by (simp add: sim_defs)
  have reply: "last_text ?msgs = Inr ''6.25%''"
    by (simp add: last_text_def text_message_def)
  from run_completed [OF start loop st ls]
  have "run sim_runner ''What is the rate?'' None ?s0
          = Some (last_text ?msgs,
              (\<lparr>responses = [], listing = ?msgs\<rparr>,
               snd ?s2 @ [MessagesList (thread_id sim_thread) ''asc'']))"
    by (rule conjunct1)
  with reply have "run sim_runner ''What is the rate?'' None ?s0
        = Some (Inr ''6.25%'',
            (\<lparr>responses = [], listing = ?msgs\<rparr>,
             [ThreadsCreate, MessagesCreate ''thread_1'' ''user'' ''What is the rate?'',
              RunsCreate ''asst_1'' ''thread_1'' False, Sleep, RunsRetrieve ''run_1'' ''thread_1'',
              MessagesList ''thread_1'' ''asc'']))"
    by (simp add: sim_thread_def)
  with start loop st show ?thesis
    by (intro conjI)
qed

text \<open>
  C5, as the claim states it, fails: on a completed run whose thread lists no message,
  \<open>run\<close> raises \<open>IndexError\<close>.
\<close>

theorem run_empty_thread_counterexample:
  "run sim_runner ''What is the rate?'' None
     (\<lparr>responses = [sim_run ''completed''], listing = []\<rparr>, [])
   = Some (Inl IndexError,
       (\<lparr>responses = [], listing = []\<rparr>,
        [ThreadsCreate, MessagesCreate ''thread_1'' ''user'' ''What is the rate?'',
         RunsCreate ''asst_1'' ''thread_1'' False, MessagesList ''thread_1'' ''asc'']))"
  by (simp add: run_defs sim_defs poll_loop_continues poll_loop_stops)

text \<open>
  C8. On a status among \<open>queued\<close>, \<open>in_progress\<close> and \<open>requires_action\<close> the loop runs
  its body once more (a sleep and a poll, or a submission of the outputs of
  \<open>handle_step\<close>) and goes on from the run object the body obtained. On any other
  status, \<open>completed\<close>, \<open>failed\<close>, \<open>cancelled\<close> and \<open>expired\<close> among them, it ends where
  it stands, without a further call. So the run object the loop ends with never has one
  of the three statuses.
\<close>

theorem poll_loop_continues_exactly:
  "(status run_obj \<in> {''queued'', ''in_progress'', ''requires_action''} \<longrightarrow>
      poll_loop self thread run_obj s =
        (case poll_step self thread run_obj s of
           (Inl e, s') \<Rightarrow> Some (Inl e, s')
         | (Inr run', s') \<Rightarrow> poll_loop self thread run' s'))
   \<and> (status run_obj \<in> {''queued'', ''in_progress''} \<longrightarrow>
      snd (snd (poll_step self thread run_obj s))
        = snd s @ [Sleep, RunsRetrieve (run_id run_obj) (thread_id thread)])
   \<and> (\<forall>outputs. status run_obj = ''requires_action'' \<and> handle_step run_obj = Inr outputs \<longrightarrow>
      snd (snd (poll_step self thread run_obj s))
        = snd s @ [SubmitToolOutputs (run_id run_obj) (thread_id thread) outputs])
   \<and> (status run_obj \<notin> {''queued'', ''in_progress'', ''requires_action''} \<longrightarrow>
      poll_loop self thread run_obj s = Some (Inr run_obj, s))
   \<and> (\<forall>run' s'. poll_loop self thread run_obj s = Some (Inr run', s') \<longrightarrow>
      status run' \<notin> {''queued'', ''in_progress'', ''requires_action''})"
proof -
  have "status run_obj \<in> {''queued'', ''in_progress''} \<longrightarrow>
      snd (snd (poll_step self thread run_obj s))
        = snd s @ [Sleep, RunsRetrieve (run_id run_obj) (thread_id thread)]"
    using poll_step_waiting_trace [of run_obj self thread s] by auto
  moreover have "\<forall>run' s'. poll_loop self thread run_obj s = Some (Inr run', s') \<longrightarrow>
      status run' \<notin> {''queued'', ''in_progress'', ''requires_action''}"
    using poll_loop_exit by blast
  ultimately show ?thesis
    using poll_loop_continues [of run_obj self thread s] poll_loop_stops [of run_obj self thread s]
      poll_step_action_trace [of run_obj _ self thread s]
    by blast
qed

theorem poll_loop_continues_exactly_witness:
  "status (sim_run ''queued'') \<in> {''queued'', ''in_progress'', ''requires_action''}
   \<and> status (sim_run ''cancelled'') \<notin> {''queued'', ''in_progress'', ''requires_action''}
   \<and> poll_loop sim_runner sim_thread (sim_run ''queued'')
        (\<lparr>responses = [sim_run ''cancelled'', sim_run ''completed''], listing = []\<rparr>, [])
       = Some (Inr (sim_run ''cancelled''),
           (\<lparr>responses = [sim_run ''completed''], listing = []\<rparr>,
            [Sleep, RunsRetrieve ''run_1'' ''thread_1'']))"
proof -
  let ?s = "(\<lparr>responses = [sim_run ''cancelled'', sim_run ''completed''], listing = []\<rparr>,
             [] :: event list)"
  let ?s' = "(\<lparr>responses = [sim_run ''completed''], listing = []\<rparr>,
              [Sleep, RunsRetrieve ''run_1'' ''thread_1''])"
  have q: "status (sim_run ''queued'') \<in> {''queued'', ''in_progress'', ''requires_action''}"
    by (simp add: sim_run_def)
  have c: "status (sim_run ''cancelled'') \<notin> {''queued'', ''in_progress'', ''requires_action''}"
    by (simp add: sim_run_def)
  have step: "poll_step sim_runner sim_thread (sim_run ''queued'') ?s
                = (Inr (sim_run ''cancelled''), ?s')"
    by (simp add: run_defs sim_defs)
  from poll_loop_continues_exactly [of "sim_run ''queued''" sim_runner sim_thread ?s]
  have "status (sim_run ''queued'') \<in> {''queued'', ''in_progress'', ''requires_action''} \<longrightarrow>
      poll_loop sim_runner sim_thread (sim_run ''queued'') ?s =
        (case poll_step sim_runner sim_thread (sim_run ''queued'') ?s of
           (Inl e, s') \<Rightarrow> Some (Inl e, s')
         | (Inr run', s') \<Rightarrow> poll_loop sim_runner sim_thread run' s')"
    by (rule conjunct1)
  from this q
  have "poll_loop sim_runner sim_thread (sim_run ''queued'') ?s =
        (case poll_step sim_runner sim_thread (sim_run ''queued'') ?s of
           (Inl e, s') \<Rightarrow> Some (Inl e, s')
         | (Inr run', s') \<Rightarrow> poll_loop sim_runner sim_thread run' s')"
    by (rule mp)
  then have first: "poll_loop sim_runner sim_thread (sim_run ''queued'') ?s
          = poll_loop sim_runner sim_thread (sim_run ''cancelled'') ?s'"
    by (simp only: step prod.case sum.case)
  from poll_loop_continues_exactly [of "sim_run ''cancelled''" sim_runner sim_thread ?s']
  have "status (sim_run ''cancelled'') \<notin> {''queued'', ''in_progress'', ''requires_action''} \<longrightarrow>
      poll_loop sim_runner sim_thread (sim_run ''cancelled'') ?s'
        = Some (Inr (sim_run ''cancelled''), ?s')"
    by (elim conjE)
  from this c
  have "poll_loop sim_runner sim_thread (sim_run ''cancelled'') ?s'
        = Some (Inr (sim_run ''cancelled''), ?s')"
    by (rule mp)
  with first have "poll_loop sim_runner sim_thread (sim_run ''queued'') ?s
        = Some (Inr (sim_run ''cancelled''), ?s')"
    by (rule trans)
  with q c show ?thesis
    by (intro conjI)
qed

text \<open>
  The run of the specification: \<open>queued\<close>, then \<open>requires_action\<close> with one
  \<open>getRateSheet\<close> call, then \<open>in_progress\<close>, then \<open>completed\<close>. One submission is made,
  of one output with the id of the call, and the text returned is that of the last
  message.
\<close>

lemma run_rate_sheet_scenario:
  "run sim_runner ''What is the rate?'' None
     (\<lparr>responses = [sim_run ''queued'', sim_action [rate_call], sim_run ''in_progress'',
                    sim_run ''completed''],
       listing = [text_message ''user'' ''What is the rate?'',
                  text_message ''assistant'' ''6.25%'']\<rparr>, [])
   = Some (Inr ''6.25%'',
       (\<lparr>responses = [],
         listing = [text_message ''user'' ''What is the rate?'',
                    text_message ''assistant'' ''6.25%'']\<rparr>,
        [ThreadsCreate, MessagesCreate ''thread_1'' ''user'' ''What is the rate?'',
         RunsCreate ''asst_1'' ''thread_1'' False,
         Sleep, RunsRetrieve ''run_1'' ''thread_1'',
         SubmitToolOutputs ''run_1'' ''thread_1'' [rate_call_output],
         Sleep, RunsRetrieve ''run_1'' ''thread_1'',
         MessagesList ''thread_1'' ''asc'']))"
  by (simp add: run_defs sim_defs poll_loop_continues poll_loop_stops handle_call_rate_call)


end
